theory Spec2Isabelle
  imports Complex_Main
begin

section \<open>Errors and Python list access\<close>

text \<open>
  The exceptions the modelled code can raise. A raising call is the value \<open>Inl e\<close> of the
  result type \<open>error + 'a\<close>; a returning call is \<open>Inr v\<close>.
\<close>

datatype error =
    IndexError
  | ZeroDivisionError
  | TypeError
  | AssertionError
  | ValueError string
  | RemoteError string

text \<open>
  Python's \<open>xs[i]\<close> for an int \<open>i\<close>: a negative index counts from the end, anything outside
  \<open>-len(xs) \<le> i < len(xs)\<close> raises IndexError.
\<close>

definition py_index :: "nat \<Rightarrow> int \<Rightarrow> nat option" where
  "py_index n i =
     (if 0 \<le> i \<and> i < int n then Some (nat i)
      else if - int n \<le> i \<and> i < 0 then Some (nat (int n + i))
      else None)"

definition getitem :: "'a list \<Rightarrow> int \<Rightarrow> error + 'a" where
  "getitem xs i = (case py_index (length xs) i of None \<Rightarrow> Inl IndexError | Some j \<Rightarrow> Inr (xs ! j))"

text \<open>\<open>xs[i]\<close> for a loop counter \<open>i\<close> out of \<open>range(...)\<close>, which is never negative.\<close>

definition getitem_nat :: "'a list \<Rightarrow> nat \<Rightarrow> error + 'a" where
  "getitem_nat xs i = (if i < length xs then Inr (xs ! i) else Inl IndexError)"

text \<open>A \<open>for\<close> loop whose body may raise: the first error ends the loop.\<close>

fun for_each :: "('s \<Rightarrow> 'i \<Rightarrow> error + 's) \<Rightarrow> 'i list \<Rightarrow> 's \<Rightarrow> error + 's" where
  "for_each body [] s = Inr s"
| "for_each body (i # rest) s =
     (case body s i of Inl e \<Rightarrow> Inl e | Inr s' \<Rightarrow> for_each body rest s')"

text \<open>A list comprehension whose element expression may raise.\<close>

fun traverse :: "('a \<Rightarrow> error + 'b) \<Rightarrow> 'a list \<Rightarrow> error + 'b list" where
  "traverse f [] = Inr []"
| "traverse f (x # xs) =
     (case f x of Inl e \<Rightarrow> Inl e
      | Inr y \<Rightarrow> (case traverse f xs of Inl e \<Rightarrow> Inl e | Inr ys \<Rightarrow> Inr (y # ys)))"

section \<open>embeddings.py: the chunk aggregator\<close>

text \<open>
  Python floats are idealised as reals: rounding, overflow and NaN inputs are outside the
  model. Float division by zero raises ZeroDivisionError in Python and is kept as an error.
\<close>

type_synonym embedding = "real list"

text \<open>
  An entry of \<open>tokens\<close> is \<open>Union[List[int], str]\<close>: a list of token ids (tiktoken) or a
  decoded string (transformers). The aggregator only takes its \<open>len\<close>.
\<close>

datatype chunk = Ids "int list" | Str string

fun len_chunk :: "chunk \<Rightarrow> nat" where
  "len_chunk (Ids ts) = length ts"
| "len_chunk (Str s) = length s"

text \<open>\<open>xss[j].append(x)\<close> for an index \<open>j\<close> already normalised.\<close>

definition append_at :: "'a list list \<Rightarrow> nat \<Rightarrow> 'a \<Rightarrow> 'a list list" where
  "append_at xss j x = xss[j := xss ! j @ [x]]"

text \<open>
  Lines 52-56, one iteration of the first loop. The state is the pair
  \<open>(results, num_tokens_in_batch)\<close>.
\<close>

definition scatter_step ::
  "bool \<Rightarrow> chunk list \<Rightarrow> embedding list \<Rightarrow> int list \<Rightarrow>
   embedding list list \<times> nat list list \<Rightarrow> nat \<Rightarrow> error + embedding list list \<times> nat list list" where
  "scatter_step skip_empty tokens batched_embeddings indices st i =
     (case st of (results, num_tokens_in_batch) \<Rightarrow>
        (case (if skip_empty
               then (case getitem_nat batched_embeddings i of
                       Inl e \<Rightarrow> Inl e
                     | Inr emb \<Rightarrow> Inr (length emb = 1))
               else Inr False) of
           Inl e \<Rightarrow> Inl e
         | Inr True \<Rightarrow> Inr st
         | Inr False \<Rightarrow>
            (case py_index (length results) (indices ! i) of
               None \<Rightarrow> Inl IndexError
             | Some j \<Rightarrow>
                (case getitem_nat batched_embeddings i of
                   Inl e \<Rightarrow> Inl e
                 | Inr emb \<Rightarrow>
                    (case py_index (length num_tokens_in_batch) (indices ! i) of
                       None \<Rightarrow> Inl IndexError
                     | Some j' \<Rightarrow>
                        (case getitem_nat tokens i of
                           Inl e \<Rightarrow> Inl e
                         | Inr tok \<Rightarrow>
                             Inr (append_at results j emb,
                                  append_at num_tokens_in_batch j' (len_chunk tok))))))))"

text \<open>
  \<open>zip(*result)\<close>: the d-th tuple holds the d-th component of every embedding, for every d
  below the length of the shortest embedding (none when \<open>result\<close> is empty).
\<close>

fun min_length :: "'a list list \<Rightarrow> nat" where
  "min_length [] = 0"
| "min_length [xs] = length xs"
| "min_length (xs # ys # xss) = min (length xs) (min_length (ys # xss))"

definition zip_star :: "'a list list \<Rightarrow> 'a list list" where
  "zip_star xss = map (\<lambda>d. map (\<lambda>xs. xs ! d) xss) [0..<min_length xss]"

text \<open>\<open>a / b\<close> on floats, and on a float and an int.\<close>

definition py_div :: "real \<Rightarrow> real \<Rightarrow> error + real" where
  "py_div a b = (if b = 0 then Inl ZeroDivisionError else Inr (a / b))"

text \<open>Lines 79-87: \<open>total_weight\<close> and \<open>average\<close>.\<close>

definition total_weight :: "nat list \<Rightarrow> nat" where
  "total_weight weights = sum_list weights"

definition weighted_sum :: "real list \<Rightarrow> nat list \<Rightarrow> real" where
  "weighted_sum column weights =
     sum_list (map (\<lambda>(val, weight). val * real weight) (zip column weights))"

definition average :: "embedding list \<Rightarrow> nat list \<Rightarrow> error + real list" where
  "average result weights =
     traverse (\<lambda>column. py_div (weighted_sum column weights) (real (total_weight weights)))
       (zip_star result)"

text \<open>Lines 91-92: \<open>magnitude\<close> and the division of every component by it.\<close>

definition magnitude :: "real list \<Rightarrow> real" where
  "magnitude avg = sqrt (sum_list (map (\<lambda>val. val ^ 2) avg))"

definition normalized :: "real list \<Rightarrow> error + real list" where
  "normalized avg = traverse (\<lambda>val. py_div val (magnitude avg)) avg"

text \<open>
  Lines 62-92, the body of the second loop for one text: \<open>None\<close> when no chunk was kept,
  the chunk's own embedding when one was, the normalised weighted average otherwise.
\<close>

definition combine :: "embedding list \<Rightarrow> nat list \<Rightarrow> error + embedding option" where
  "combine result weights =
     (if length result = 0 then Inr None
      else if length result = 1 then Inr (Some (result ! 0))
      else (case average result weights of
              Inl e \<Rightarrow> Inl e
            | Inr avg \<Rightarrow>
               (case normalized avg of
                  Inl e \<Rightarrow> Inl e
                | Inr v \<Rightarrow> Inr (Some v))))"

text \<open>
  \<open>_process_batched_chunked_embeddings\<close>. \<open>range(num_texts)\<close> is empty for a negative
  \<open>num_texts\<close>, hence \<open>nat num_texts\<close>.
\<close>

definition process_batched_chunked_embeddings ::
  "int \<Rightarrow> chunk list \<Rightarrow> embedding list \<Rightarrow> int list \<Rightarrow> bool \<Rightarrow> error + embedding option list" where
  "process_batched_chunked_embeddings num_texts tokens batched_embeddings indices skip_empty =
     (case for_each (scatter_step skip_empty tokens batched_embeddings indices)
             [0..<length indices]
             (replicate (nat num_texts) [], replicate (nat num_texts) []) of
        Inl e \<Rightarrow> Inl e
      | Inr (results, num_tokens_in_batch) \<Rightarrow>
          traverse (\<lambda>i. combine (results ! i) (num_tokens_in_batch ! i)) [0..<nat num_texts])"

section \<open>embeddings.py: tokenizing and chunk planning\<close>

text \<open>
  \<open>range(0, n, step)\<close>: ValueError for a zero step, empty for a negative one, the multiples
  of \<open>step\<close> below \<open>n\<close> otherwise.
\<close>

definition py_range_step :: "nat \<Rightarrow> int \<Rightarrow> error + nat list" where
  "py_range_step n step =
     (if step = 0 then Inl (ValueError ''range() arg 3 must not be zero'')
      else if step < 0 then Inr []
      else Inr (map (\<lambda>q. q * nat step) [0..<(n + nat step - 1) div nat step]))"

text \<open>\<open>[token[j : j + L] for j in range(0, len(token), L)]\<close>\<close>

definition split_tokens :: "int \<Rightarrow> 'a list \<Rightarrow> error + 'a list list" where
  "split_tokens L token =
     (case py_range_step (length token) L of
        Inl e \<Rightarrow> Inl e
      | Inr js \<Rightarrow> Inr (map (\<lambda>j. take (nat L) (drop j token)) js))"

text \<open>
  The tokenizers are external: tiktoken's \<open>encode\<close>/\<open>encode_ordinary\<close> (which one is fixed by
  the configuration), and the transformers tokenizer's \<open>encode\<close> and \<open>decode\<close>, with
  whether the transformers package can be imported. Obtaining a tokenizer
  (\<open>AutoTokenizer.from_pretrained\<close>; \<open>tiktoken.encoding_for_model\<close> with its fallback
  \<open>tiktoken.get_encoding\<close>) may raise, and so may an encoder.
\<close>

record tokenizer =
  transformers_importable :: bool
  hf_load_error :: "error option"
  hf_encode :: "string \<Rightarrow> error + int list"
  hf_decode :: "int list \<Rightarrow> string"
  tiktoken_load_error :: "error option"
  tiktoken_encode :: "string \<Rightarrow> error + int list"

text \<open>
  The remote endpoint. A request carries a batch of chunks or one text (the model name and
  \<open>model_kwargs\<close> are the same in every request of an instance and are left out). The
  endpoint is a function of the requests sent to it so far and the current request; it
  answers with the embeddings of \<open>response["data"]\<close>, in order, or raises.
\<close>

datatype request = Batch "chunk list" | Text string

type_synonym endpoint = "request list \<Rightarrow> request \<Rightarrow> error + embedding list"

record embeddings_config =
  cfg_chunk_size :: int
  cfg_tiktoken_enabled :: bool
  cfg_skip_empty :: bool
  cfg_embedding_ctx_length :: int
  cfg_check_embedding_ctx_length :: bool
  cfg_client :: endpoint
  cfg_async_client :: endpoint

text \<open>The token sequence of one text, by the configured backend.\<close>

definition encode_text :: "embeddings_config \<Rightarrow> tokenizer \<Rightarrow> string \<Rightarrow> error + int list" where
  "encode_text cfg tk text =
     (if \<not> cfg_tiktoken_enabled cfg then hf_encode tk text else tiktoken_encode tk text)"

text \<open>
  Lines 230-241 and 257-265: the chunks one text contributes. The transformers branch
  stores each slice decoded back to a string, the tiktoken branch stores the slice.
\<close>

definition text_chunks :: "embeddings_config \<Rightarrow> tokenizer \<Rightarrow> string \<Rightarrow> error + chunk list" where
  "text_chunks cfg tk text =
     (if \<not> cfg_tiktoken_enabled cfg then
        (case hf_encode tk text of
           Inl e \<Rightarrow> Inl e
         | Inr tokenized \<Rightarrow>
            (case split_tokens (cfg_embedding_ctx_length cfg) tokenized of
               Inl e \<Rightarrow> Inl e
             | Inr token_chunks \<Rightarrow> Inr (map (\<lambda>token_chunk. Str (hf_decode tk token_chunk)) token_chunks)))
      else
        (case tiktoken_encode tk text of
           Inl e \<Rightarrow> Inl e
         | Inr token \<Rightarrow>
            (case split_tokens (cfg_embedding_ctx_length cfg) token of
               Inl e \<Rightarrow> Inl e
             | Inr token_chunks \<Rightarrow> Inr (map Ids token_chunks))))"

text \<open>One iteration of \<open>for i, text in enumerate(texts)\<close>; the state is \<open>(tokens, indices)\<close>.\<close>

definition tokenize_step ::
  "embeddings_config \<Rightarrow> tokenizer \<Rightarrow> chunk list \<times> int list \<Rightarrow> nat \<times> string \<Rightarrow>
   error + chunk list \<times> int list" where
  "tokenize_step cfg tk st it =
     (case st of (tokens, indices) \<Rightarrow>
      (case it of (i, text) \<Rightarrow>
        (case text_chunks cfg tk text of
           Inl e \<Rightarrow> Inl e
         | Inr cs \<Rightarrow> Inr (tokens @ cs, indices @ replicate (length cs) (int i)))))"

text \<open>
  \<open>_tokenize\<close>: the batch start offsets, the chunks and their origin indices. The progress
  bar only wraps the same range and is left out.
\<close>

definition tokenize ::
  "embeddings_config \<Rightarrow> tokenizer \<Rightarrow> string list \<Rightarrow> int \<Rightarrow>
   error + nat list \<times> chunk list \<times> int list" where
  "tokenize cfg tk texts chunk_size =
     (if \<not> cfg_tiktoken_enabled cfg \<and> \<not> transformers_importable tk
      then Inl (ValueError ''Could not import transformers python package.'')
      else
        (case (if \<not> cfg_tiktoken_enabled cfg then hf_load_error tk else tiktoken_load_error tk) of
           Some e \<Rightarrow> Inl e
         | None \<Rightarrow>
            (case for_each (tokenize_step cfg tk) (enumerate 0 texts) ([], []) of
               Inl e \<Rightarrow> Inl e
             | Inr (tokens, indices) \<Rightarrow>
                (case py_range_step (length tokens) chunk_size of
                   Inl e \<Rightarrow> Inl e
                 | Inr iter \<Rightarrow> Inr (iter, tokens, indices)))))"

section \<open>embeddings.py: dispatch and the length-safe pipeline\<close>

text \<open>
  A computation that talks to the endpoint takes the requests sent so far and returns its
  result with the requests sent so far afterwards; a request that raises was still sent.
\<close>

type_synonym 'a remote = "request list \<Rightarrow> (error + 'a) \<times> request list"

definition create :: "endpoint \<Rightarrow> request \<Rightarrow> embedding list remote" where
  "create ep req hist = (ep hist req, hist @ [req])"

fun for_each_remote :: "('s \<Rightarrow> 'i \<Rightarrow> 's remote) \<Rightarrow> 'i list \<Rightarrow> 's \<Rightarrow> 's remote" where
  "for_each_remote body [] s hist = (Inr s, hist)"
| "for_each_remote body (i # rest) s hist =
     (case body s i hist of
        (Inl e, hist') \<Rightarrow> (Inl e, hist')
      | (Inr s', hist') \<Rightarrow> for_each_remote body rest s' hist')"

text \<open>Lines 299-305: one batch; the state is \<open>batched_embeddings\<close>.\<close>

definition fetch_batch :: "endpoint \<Rightarrow> int \<Rightarrow> chunk list \<Rightarrow> embedding list \<Rightarrow> nat \<Rightarrow> embedding list remote" where
  "fetch_batch ep chunk_size tokens batched_embeddings i hist =
     (case create ep (Batch (take (nat chunk_size) (drop i tokens))) hist of
        (Inl e, hist') \<Rightarrow> (Inl e, hist')
      | (Inr data, hist') \<Rightarrow> (Inr (batched_embeddings @ data), hist'))"

text \<open>
  Lines 310-321: \<open>empty_embedding()\<close> with its closure variable \<open>_cached_empty_embedding\<close>,
  passed in and returned.
\<close>

definition empty_embedding ::
  "endpoint \<Rightarrow> embedding option \<Rightarrow> request list \<Rightarrow> (error + embedding) \<times> embedding option \<times> request list" where
  "empty_embedding ep cached hist =
     (case cached of
        Some e \<Rightarrow> (Inr e, cached, hist)
      | None \<Rightarrow>
         (case create ep (Text []) hist of
            (Inl err, hist') \<Rightarrow> (Inl err, None, hist')
          | (Inr data, hist') \<Rightarrow>
             (case data of
                [] \<Rightarrow> (Inl IndexError, None, hist')
              | e # _ \<Rightarrow> (Inr e, Some e, hist'))))"

text \<open>Line 323: \<open>[e if e is not None else empty_embedding() for e in embeddings]\<close>\<close>

fun fill_empty ::
  "endpoint \<Rightarrow> embedding option list \<Rightarrow> embedding option \<Rightarrow> embedding list remote" where
  "fill_empty ep [] cached hist = (Inr [], hist)"
| "fill_empty ep (Some v # es) cached hist =
     (case fill_empty ep es cached hist of
        (Inl err, hist') \<Rightarrow> (Inl err, hist')
      | (Inr vs, hist') \<Rightarrow> (Inr (v # vs), hist'))"
| "fill_empty ep (None # es) cached hist =
     (case empty_embedding ep cached hist of
        (Inl err, cached', hist') \<Rightarrow> (Inl err, hist')
      | (Inr v, cached', hist') \<Rightarrow>
         (case fill_empty ep es cached' hist' of
            (Inl err, hist'') \<Rightarrow> (Inl err, hist'')
          | (Inr vs, hist'') \<Rightarrow> (Inr (v # vs), hist'')))"

text \<open>\<open>chunk_size or self.chunk_size\<close>: \<open>None\<close> and \<open>0\<close> are falsy.\<close>

definition effective_chunk_size :: "embeddings_config \<Rightarrow> int option \<Rightarrow> int" where
  "effective_chunk_size cfg chunk_size =
     (case chunk_size of
        None \<Rightarrow> cfg_chunk_size cfg
      | Some c \<Rightarrow> if c = 0 then cfg_chunk_size cfg else c)"

text \<open>
  The body shared by \<open>_get_len_safe_embeddings\<close> and \<open>_aget_len_safe_embeddings\<close>, which
  differ in the client they call (and in awaiting it; batches are still issued one
  after another).
\<close>

definition len_safe_embeddings ::
  "endpoint \<Rightarrow> embeddings_config \<Rightarrow> tokenizer \<Rightarrow> string list \<Rightarrow> int option \<Rightarrow> embedding list remote" where
  "len_safe_embeddings ep cfg tk texts chunk_size hist =
     (case tokenize cfg tk texts (effective_chunk_size cfg chunk_size) of
        Inl e \<Rightarrow> (Inl e, hist)
      | Inr (iter, tokens, indices) \<Rightarrow>
         (case for_each_remote (fetch_batch ep (effective_chunk_size cfg chunk_size) tokens)
                 iter [] hist of
            (Inl e, hist') \<Rightarrow> (Inl e, hist')
          | (Inr batched_embeddings, hist') \<Rightarrow>
             (case process_batched_chunked_embeddings (int (length texts)) tokens
                     batched_embeddings indices (cfg_skip_empty cfg) of
                Inl e \<Rightarrow> (Inl e, hist')
              | Inr embeddings \<Rightarrow> fill_empty ep embeddings None hist')))"

definition get_len_safe_embeddings ::
  "embeddings_config \<Rightarrow> tokenizer \<Rightarrow> string list \<Rightarrow> int option \<Rightarrow> embedding list remote" where
  "get_len_safe_embeddings cfg = len_safe_embeddings (cfg_client cfg) cfg"

definition aget_len_safe_embeddings ::
  "embeddings_config \<Rightarrow> tokenizer \<Rightarrow> string list \<Rightarrow> int option \<Rightarrow> embedding list remote" where
  "aget_len_safe_embeddings cfg = len_safe_embeddings (cfg_async_client cfg) cfg"

text \<open>
  Lines 388-397 and 428-437, with the context-length check off: one request per text,
  the embeddings of every response appended.
\<close>

definition embed_unchecked_step :: "endpoint \<Rightarrow> embedding list \<Rightarrow> string \<Rightarrow> embedding list remote" where
  "embed_unchecked_step ep embeddings text hist =
     (case create ep (Text text) hist of
        (Inl e, hist') \<Rightarrow> (Inl e, hist')
      | (Inr data, hist') \<Rightarrow> (Inr (embeddings @ data), hist'))"

definition embed_documents ::
  "embeddings_config \<Rightarrow> tokenizer \<Rightarrow> string list \<Rightarrow> embedding list remote" where
  "embed_documents cfg tk texts hist =
     (if \<not> cfg_check_embedding_ctx_length cfg
      then for_each_remote (embed_unchecked_step (cfg_client cfg)) texts [] hist
      else get_len_safe_embeddings cfg tk texts None hist)"

definition aembed_documents ::
  "embeddings_config \<Rightarrow> tokenizer \<Rightarrow> string list \<Rightarrow> embedding list remote" where
  "aembed_documents cfg tk texts hist =
     (if \<not> cfg_check_embedding_ctx_length cfg
      then for_each_remote (embed_unchecked_step (cfg_async_client cfg)) texts [] hist
      else aget_len_safe_embeddings cfg tk texts None hist)"

text \<open>\<open>embed_query\<close> and \<open>aembed_query\<close>: element 0 of the one-text call.\<close>

definition embed_query :: "embeddings_config \<Rightarrow> tokenizer \<Rightarrow> string \<Rightarrow> embedding remote" where
  "embed_query cfg tk text hist =
     (case embed_documents cfg tk [text] hist of
        (Inl e, hist') \<Rightarrow> (Inl e, hist')
      | (Inr embeddings, hist') \<Rightarrow> (getitem embeddings 0, hist'))"

definition aembed_query :: "embeddings_config \<Rightarrow> tokenizer \<Rightarrow> string \<Rightarrow> embedding remote" where
  "aembed_query cfg tk text hist =
     (case aembed_documents cfg tk [text] hist of
        (Inl e, hist') \<Rightarrow> (Inl e, hist')
      | (Inr embeddings, hist') \<Rightarrow> (getitem embeddings 0, hist'))"

section \<open>llms.py: the completion provider\<close>

text \<open>
  A choice of a response, and a generation of the result, carry a text, a finish reason
  and log-probabilities (opaque here).
\<close>

record choice =
  choice_text :: string
  choice_finish_reason :: "string option"
  choice_logprobs :: "string option"

text \<open>
  \<open>_update_token_usage\<close> reads and writes only the three keys of \<open>_keys\<close>, so
  \<open>response["usage"]\<close> and \<open>token_usage\<close> are records of these three optional counters
  (\<open>None\<close>: the key is absent).
\<close>

record usage =
  completion_tokens :: "int option"
  prompt_tokens :: "int option"
  total_tokens :: "int option"

text \<open>
  A non-streaming response: \<open>response.get("error")\<close>, \<open>response["choices"]\<close> (which is
  \<open>None\<close> when the server sent null), \<open>response["usage"]\<close> and
  \<open>response.get("system_fingerprint")\<close>.
\<close>

record response =
  resp_error :: "string option"
  resp_choices :: "choice list option"
  resp_usage :: usage
  resp_system_fingerprint :: "string option"

record generation_chunk =
  chunk_text :: string
  chunk_info :: "(string option \<times> string option) option"

text \<open>
  The parameters of a request that the code itself reads or writes: \<open>n\<close>, \<open>max_tokens\<close>,
  \<open>stop\<close> (\<open>None\<close>: no such key) and \<open>stream\<close>. The other sampling parameters are passed
  through unread.
\<close>

record params =
  p_n :: int
  p_max_tokens :: int
  p_stop :: "string list option"
  p_stream :: bool

text \<open>The keyword arguments of a call that override those parameters.\<close>

record kwargs =
  kw_n :: "int option"
  kw_max_tokens :: "int option"
  kw_stop :: "string list option"

datatype completion_request = Complete "string list" params | StreamOne string params

text \<open>
  The completions client: \<open>create\<close> without and with \<open>stream=True\<close>, each a function of the
  requests sent so far and the current one. A stream is the list of its responses, each with
  its list of choices.
\<close>

record completions_client =
  create_completion :: "completion_request list \<Rightarrow> completion_request \<Rightarrow> error + response"
  create_stream :: "completion_request list \<Rightarrow> completion_request \<Rightarrow> error + choice list list"

text \<open>
  The fields of \<open>BaseCompressaLLM\<close> the modelled code reads. \<open>llm_api_key\<close> is the key found
  in the values or the environment, \<open>llm_kwargs_stop\<close> is \<open>model_kwargs.get("stop")\<close>
  (the declared fields cannot occur in \<open>model_kwargs\<close>). Two collaborators defined outside
  the repository are parameters: \<open>max_tokens_for_prompt\<close> and the addition of generation
  chunks.
\<close>

record llm_config =
  llm_n :: int
  llm_best_of :: int
  llm_max_tokens :: int
  llm_streaming :: bool
  llm_batch_size :: int
  llm_kwargs_stop :: "string list option"
  llm_model_name :: string
  llm_api_key :: "string option"
  llm_client :: completions_client
  llm_async_client :: completions_client
  llm_max_tokens_for_prompt :: "string \<Rightarrow> error + int"
  llm_chunk_add :: "generation_chunk \<Rightarrow> generation_chunk \<Rightarrow> generation_chunk"

text \<open>
  \<open>validate_environment\<close>: the three checks on \<open>n\<close>, \<open>streaming\<close> and \<open>best_of\<close>, then the
  API key, then the construction of the clients (which sends nothing).
\<close>

definition validate_environment :: "llm_config \<Rightarrow> error + llm_config" where
  "validate_environment values =
     (if llm_n values < 1 then Inl (ValueError ''n must be at least 1.'')
      else if llm_streaming values \<and> llm_n values > 1
        then Inl (ValueError ''Cannot stream results when n > 1.'')
      else if llm_streaming values \<and> llm_best_of values > 1
        then Inl (ValueError ''Cannot stream results when best_of > 1.'')
      else if llm_api_key values = None
        then Inl (ValueError ''Did not find compressa_api_key'')
      else Inr values)"

text \<open>\<open>_invocation_params\<close> merged with the keyword arguments: \<open>{**params, **kwargs}\<close>.\<close>

definition invocation_params :: "llm_config \<Rightarrow> kwargs \<Rightarrow> params" where
  "invocation_params self kw =
     \<lparr> p_n = (case kw_n kw of None \<Rightarrow> llm_n self | Some v \<Rightarrow> v),
       p_max_tokens = (case kw_max_tokens kw of None \<Rightarrow> llm_max_tokens self | Some v \<Rightarrow> v),
       p_stop = (case kw_stop kw of None \<Rightarrow> llm_kwargs_stop self | Some v \<Rightarrow> Some v),
       p_stream = False \<rparr>"

text \<open>\<open>get_sub_prompts\<close>; it mutates \<open>params\<close>, so the new \<open>params\<close> is returned as well.\<close>

definition get_sub_prompts ::
  "llm_config \<Rightarrow> params \<Rightarrow> string list \<Rightarrow> string list option \<Rightarrow> error + params \<times> string list list" where
  "get_sub_prompts self ps prompts stop =
     (case (case stop of
              None \<Rightarrow> Inr ps
            | Some st \<Rightarrow>
                if p_stop ps \<noteq> None
                then Inl (ValueError ''`stop` found in both the input and default params.'')
                else Inr (ps\<lparr>p_stop := Some st\<rparr>)) of
        Inl e \<Rightarrow> Inl e
      | Inr ps1 \<Rightarrow>
         (case (if p_max_tokens ps1 = - 1
                then (if length prompts \<noteq> 1
                      then Inl (ValueError ''max_tokens set to -1 not supported for multiple inputs.'')
                      else (case llm_max_tokens_for_prompt self (prompts ! 0) of
                              Inl e \<Rightarrow> Inl e
                            | Inr m \<Rightarrow> Inr (ps1\<lparr>p_max_tokens := m\<rparr>)))
                else Inr ps1) of
            Inl e \<Rightarrow> Inl e
          | Inr ps2 \<Rightarrow>
             (case py_range_step (length prompts) (llm_batch_size self) of
                Inl e \<Rightarrow> Inl e
              | Inr starts \<Rightarrow>
                 Inr (ps2, map (\<lambda>i. take (nat (llm_batch_size self)) (drop i prompts)) starts))))"

text \<open>\<open>_stream_response_to_generation_chunk\<close>, on the choices of one stream response.\<close>

definition stream_response_to_generation_chunk :: "choice list \<Rightarrow> generation_chunk" where
  "stream_response_to_generation_chunk choices =
     (case choices of
        [] \<Rightarrow> \<lparr> chunk_text = [], chunk_info = None \<rparr>
      | c # _ \<Rightarrow> \<lparr> chunk_text = choice_text c,
                  chunk_info = Some (choice_finish_reason c, choice_logprobs c) \<rparr>)"

type_synonym 'a cremote = "completion_request list \<Rightarrow> (error + 'a) \<times> completion_request list"

fun for_each_cremote :: "('s \<Rightarrow> 'i \<Rightarrow> 's cremote) \<Rightarrow> 'i list \<Rightarrow> 's \<Rightarrow> 's cremote" where
  "for_each_cremote body [] s hist = (Inr s, hist)"
| "for_each_cremote body (i # rest) s hist =
     (case body s i hist of
        (Inl e, hist') \<Rightarrow> (Inl e, hist')
      | (Inr s', hist') \<Rightarrow> for_each_cremote body rest s' hist')"

text \<open>
  \<open>_stream\<close> and \<open>_astream\<close> on the given client: the generation chunks of one streamed
  prompt. The callbacks of \<open>run_manager\<close> only observe and are left out.
\<close>

definition stream_with ::
  "completions_client \<Rightarrow> llm_config \<Rightarrow> string \<Rightarrow> string list option \<Rightarrow> kwargs \<Rightarrow>
   generation_chunk list cremote" where
  "stream_with cl self prompt stop kw hist =
     (case get_sub_prompts self ((invocation_params self kw)\<lparr>p_stream := True\<rparr>) [prompt] stop of
        Inl e \<Rightarrow> (Inl e, hist)
      | Inr (ps, _) \<Rightarrow>
         (case create_stream cl hist (StreamOne prompt ps) of
            Inl e \<Rightarrow> (Inl e, hist @ [StreamOne prompt ps])
          | Inr resps \<Rightarrow>
              (Inr (map stream_response_to_generation_chunk resps), hist @ [StreamOne prompt ps])))"

text \<open>
  Lines 304-325 and 374-397: the chunks of a stream added up into one generation, which is
  asserted to exist and appended to \<open>choices\<close> as a choice.
\<close>

fun accumulate :: "llm_config \<Rightarrow> generation_chunk option \<Rightarrow> generation_chunk list \<Rightarrow> generation_chunk option" where
  "accumulate self generation [] = generation"
| "accumulate self None (chunk # rest) = accumulate self (Some chunk) rest"
| "accumulate self (Some g) (chunk # rest) = accumulate self (Some (llm_chunk_add self g chunk)) rest"

definition generation_choice :: "generation_chunk \<Rightarrow> choice" where
  "generation_choice generation =
     \<lparr> choice_text = chunk_text generation,
       choice_finish_reason = (case chunk_info generation of None \<Rightarrow> None | Some (fr, lp) \<Rightarrow> fr),
       choice_logprobs = (case chunk_info generation of None \<Rightarrow> None | Some (fr, lp) \<Rightarrow> lp) \<rparr>"

definition streamed_choice ::
  "completions_client \<Rightarrow> llm_config \<Rightarrow> string list \<Rightarrow> string list option \<Rightarrow> kwargs \<Rightarrow> choice cremote" where
  "streamed_choice cl self sub_prompt stop kw hist =
     (if length sub_prompt > 1
      then (Inl (ValueError ''Cannot stream results with multiple prompts.''), hist)
      else (case getitem sub_prompt 0 of
              Inl e \<Rightarrow> (Inl e, hist)
            | Inr prompt \<Rightarrow>
               (case stream_with cl self prompt stop kw hist of
                  (Inl e, hist') \<Rightarrow> (Inl e, hist')
                | (Inr chunks, hist') \<Rightarrow>
                   (case accumulate self None chunks of
                      None \<Rightarrow> (Inl AssertionError, hist')
                    | Some generation \<Rightarrow> (Inr (generation_choice generation), hist')))))"

text \<open>\<open>_update_token_usage\<close>, key by key.\<close>

definition add_counter :: "int option \<Rightarrow> int option \<Rightarrow> int option" where
  "add_counter used new =
     (case new of
        None \<Rightarrow> used
      | Some v \<Rightarrow> (case used of None \<Rightarrow> Some v | Some u \<Rightarrow> Some (u + v)))"

definition update_token_usage :: "response \<Rightarrow> usage \<Rightarrow> usage" where
  "update_token_usage resp token_usage =
     \<lparr> completion_tokens = add_counter (completion_tokens token_usage) (completion_tokens (resp_usage resp)),
       prompt_tokens = add_counter (prompt_tokens token_usage) (prompt_tokens (resp_usage resp)),
       total_tokens = add_counter (total_tokens token_usage) (total_tokens (resp_usage resp)) \<rparr>"

text \<open>Truthiness of \<open>response.get("error")\<close> and of \<open>system_fingerprint\<close>.\<close>

definition truthy :: "string option \<Rightarrow> bool" where
  "truthy v = (case v of None \<Rightarrow> False | Some s \<Rightarrow> s \<noteq> [])"

text \<open>
  Lines 299-343, one iteration of the loop of \<open>_generate\<close>. The state is
  \<open>(choices, token_usage, system_fingerprint)\<close>.
\<close>

definition generate_step ::
  "llm_config \<Rightarrow> params \<Rightarrow> string list option \<Rightarrow> kwargs \<Rightarrow>
   choice list \<times> usage \<times> string option \<Rightarrow> string list \<Rightarrow>
   (choice list \<times> usage \<times> string option) cremote" where
  "generate_step self ps stop kw st sub_prompt hist =
     (case st of (choices, token_usage, system_fingerprint) \<Rightarrow>
        if llm_streaming self then
          (case streamed_choice (llm_client self) self sub_prompt stop kw hist of
             (Inl e, hist') \<Rightarrow> (Inl e, hist')
           | (Inr c, hist') \<Rightarrow> (Inr (choices @ [c], token_usage, system_fingerprint), hist'))
        else
          (case create_completion (llm_client self) hist (Complete sub_prompt ps) of
             Inl e \<Rightarrow> (Inl e, hist @ [Complete sub_prompt ps])
           | Inr resp \<Rightarrow>
              if truthy (resp_error resp)
              then (Inl (ValueError (the (resp_error resp))), hist @ [Complete sub_prompt ps])
              else (case resp_choices resp of
                      None \<Rightarrow> (Inl TypeError, hist @ [Complete sub_prompt ps])
                    | Some cs \<Rightarrow>
                        (Inr (choices @ cs, update_token_usage resp token_usage,
                              (if \<not> truthy system_fingerprint
                               then resp_system_fingerprint resp else system_fingerprint)),
                         hist @ [Complete sub_prompt ps]))))"

text \<open>
  Lines 369-403, one iteration of the loop of \<open>_agenerate\<close>: no look at the error field,
  and \<open>system_fingerprint\<close> is never assigned.
\<close>

definition agenerate_step ::
  "llm_config \<Rightarrow> params \<Rightarrow> string list option \<Rightarrow> kwargs \<Rightarrow>
   choice list \<times> usage \<times> string option \<Rightarrow> string list \<Rightarrow>
   (choice list \<times> usage \<times> string option) cremote" where
  "agenerate_step self ps stop kw st sub_prompt hist =
     (case st of (choices, token_usage, system_fingerprint) \<Rightarrow>
        if llm_streaming self then
          (case streamed_choice (llm_async_client self) self sub_prompt stop kw hist of
             (Inl e, hist') \<Rightarrow> (Inl e, hist')
           | (Inr c, hist') \<Rightarrow> (Inr (choices @ [c], token_usage, system_fingerprint), hist'))
        else
          (case create_completion (llm_async_client self) hist (Complete sub_prompt ps) of
             Inl e \<Rightarrow> (Inl e, hist @ [Complete sub_prompt ps])
           | Inr resp \<Rightarrow>
              (case resp_choices resp of
                 None \<Rightarrow> (Inl TypeError, hist @ [Complete sub_prompt ps])
               | Some cs \<Rightarrow>
                   (Inr (choices @ cs, update_token_usage resp token_usage, system_fingerprint),
                    hist @ [Complete sub_prompt ps]))))"

text \<open>\<open>xs[a:b]\<close> for ints \<open>a\<close> and \<open>b\<close>: negative bounds count from the end, all are clipped.\<close>

definition py_slice :: "'a list \<Rightarrow> int \<Rightarrow> int \<Rightarrow> 'a list" where
  "py_slice xs a b =
     (let n = int (length xs);
          lo = (if a < 0 then max 0 (n + a) else min a n);
          hi = (if b < 0 then max 0 (n + b) else min b n)
      in take (nat (hi - lo)) (drop (nat lo) xs))"

record llm_result =
  generations :: "choice list list"
  out_token_usage :: usage
  out_model_name :: string
  out_system_fingerprint :: "string option"

text \<open>\<open>create_llm_result\<close>: prompt \<open>i\<close> gets \<open>choices[i * n : (i + 1) * n]\<close>.\<close>

definition create_llm_result ::
  "llm_config \<Rightarrow> choice list \<Rightarrow> string list \<Rightarrow> params \<Rightarrow> usage \<Rightarrow> string option \<Rightarrow> llm_result" where
  "create_llm_result self choices prompts ps token_usage system_fingerprint =
     \<lparr> generations =
         map (\<lambda>i. py_slice choices (int i * p_n ps) ((int i + 1) * p_n ps)) [0..<length prompts],
       out_token_usage = token_usage,
       out_model_name = llm_model_name self,
       out_system_fingerprint = (if truthy system_fingerprint then system_fingerprint else None) \<rparr>"

definition no_usage :: usage where
  "no_usage = \<lparr> completion_tokens = None, prompt_tokens = None, total_tokens = None \<rparr>"

text \<open>\<open>_generate\<close> and \<open>_agenerate\<close>.\<close>

definition generate ::
  "llm_config \<Rightarrow> string list \<Rightarrow> string list option \<Rightarrow> kwargs \<Rightarrow> llm_result cremote" where
  "generate self prompts stop kw hist =
     (case get_sub_prompts self (invocation_params self kw) prompts stop of
        Inl e \<Rightarrow> (Inl e, hist)
      | Inr (ps, sub_prompts) \<Rightarrow>
         (case for_each_cremote (generate_step self ps stop kw) sub_prompts
                 ([], no_usage, None) hist of
            (Inl e, hist') \<Rightarrow> (Inl e, hist')
          | (Inr (choices, token_usage, system_fingerprint), hist') \<Rightarrow>
              (Inr (create_llm_result self choices prompts ps token_usage system_fingerprint), hist')))"

definition agenerate ::
  "llm_config \<Rightarrow> string list \<Rightarrow> string list option \<Rightarrow> kwargs \<Rightarrow> llm_result cremote" where
  "agenerate self prompts stop kw hist =
     (case get_sub_prompts self (invocation_params self kw) prompts stop of
        Inl e \<Rightarrow> (Inl e, hist)
      | Inr (ps, sub_prompts) \<Rightarrow>
         (case for_each_cremote (agenerate_step self ps stop kw) sub_prompts
                 ([], no_usage, None) hist of
            (Inl e, hist') \<Rightarrow> (Inl e, hist')
          | (Inr (choices, token_usage, system_fingerprint), hist') \<Rightarrow>
              (Inr (create_llm_result self choices prompts ps token_usage system_fingerprint), hist')))"

section \<open>The chunks a text is aggregated from\<close>

text \<open>
  Line 53: chunk \<open>c\<close> is skipped when \<open>skip_empty\<close> is set and its embedding has exactly
  one component. \<open>kept_chunks n \<dots> m i\<close> are the positions below \<open>m\<close> of the chunks that are
  not skipped and whose origin index denotes text \<open>i\<close> of \<open>n\<close>.
\<close>

definition skipped :: "bool \<Rightarrow> embedding list \<Rightarrow> nat \<Rightarrow> bool" where
  "skipped skip_empty batched_embeddings c = (skip_empty \<and> length (batched_embeddings ! c) = 1)"

definition kept_chunks :: "nat \<Rightarrow> bool \<Rightarrow> embedding list \<Rightarrow> int list \<Rightarrow> nat \<Rightarrow> nat \<Rightarrow> nat list" where
  "kept_chunks n skip_empty batched_embeddings indices m i =
     filter (\<lambda>c. \<not> skipped skip_empty batched_embeddings c \<and> py_index n (indices ! c) = Some i) [0..<m]"

text \<open>
  The specification's weighted average of dimension \<open>d\<close> over the chunks \<open>cs\<close>: the sum of
  \<open>embedding[chunk][d] * tokenLength[chunk]\<close> divided by the sum of the token lengths.
\<close>

definition spec_weighted_average :: "embedding list \<Rightarrow> chunk list \<Rightarrow> nat list \<Rightarrow> nat \<Rightarrow> real" where
  "spec_weighted_average embs toks cs d =
     (\<Sum>c\<leftarrow>cs. embs ! c ! d * real (len_chunk (toks ! c))) / real (\<Sum>c\<leftarrow>cs. len_chunk (toks ! c))"

section \<open>A small instance\<close>

text \<open>
  A tokenizer with one token per character, an endpoint that answers a batch with one
  two-component embedding per chunk and any text with a fixed embedding, and a
  configuration with context limit 2 and batch size 2.
\<close>

definition demo_tokenizer :: tokenizer where
  "demo_tokenizer =
     \<lparr> transformers_importable = False,
       hf_load_error = None,
       hf_encode = (\<lambda>s. Inr []),
       hf_decode = (\<lambda>ts. []),
       tiktoken_load_error = None,
       tiktoken_encode = (\<lambda>s. Inr (map (\<lambda>c. if c = CHR ''a'' then 1 else 2) s)) \<rparr>"

definition demo_endpoint :: endpoint where
  "demo_endpoint hist req =
     (case req of Batch cs \<Rightarrow> Inr (map (\<lambda>c. [real (len_chunk c), 1]) cs) | Text s \<Rightarrow> Inr [[9, 9]])"

definition demo_config :: embeddings_config where
  "demo_config =
     \<lparr> cfg_chunk_size = 2, cfg_tiktoken_enabled = True, cfg_skip_empty = False,
       cfg_embedding_ctx_length = 2, cfg_check_embedding_ctx_length = True,
       cfg_client = demo_endpoint, cfg_async_client = demo_endpoint \<rparr>"

text \<open>
  A completions client whose non-streaming response carries an error next to a list of
  choices and whose stream has two responses, and a configuration with the defaults of the
  class.
\<close>

definition no_kwargs :: kwargs where
  "no_kwargs = \<lparr> kw_n = None, kw_max_tokens = None, kw_stop = None \<rparr>"

definition demo_choice :: "string \<Rightarrow> choice" where
  "demo_choice s = \<lparr> choice_text = s, choice_finish_reason = None, choice_logprobs = None \<rparr>"

definition demo_error_response :: response where
  "demo_error_response =
     \<lparr> resp_error = Some ''model overloaded'',
       resp_choices = Some [demo_choice ''partial''],
       resp_usage = no_usage,
       resp_system_fingerprint = None \<rparr>"

definition demo_completions :: completions_client where
  "demo_completions =
     \<lparr> create_completion = (\<lambda>hist req. Inr demo_error_response),
       create_stream = (\<lambda>hist req. Inr [[demo_choice ''to''], [demo_choice ''ken'']]) \<rparr>"

definition demo_chunk_add :: "generation_chunk \<Rightarrow> generation_chunk \<Rightarrow> generation_chunk" where
  "demo_chunk_add a b = \<lparr> chunk_text = chunk_text a @ chunk_text b, chunk_info = chunk_info a \<rparr>"

definition demo_llm :: llm_config where
  "demo_llm =
     \<lparr> llm_n = 1, llm_best_of = 1, llm_max_tokens = 256, llm_streaming = False,
       llm_batch_size = 20, llm_kwargs_stop = None, llm_model_name = ''model'',
       llm_api_key = Some ''key'', llm_client = demo_completions,
       llm_async_client = demo_completions, llm_max_tokens_for_prompt = (\<lambda>p. Inr 16),
       llm_chunk_add = demo_chunk_add \<rparr>"

section \<open>Loops and list comprehensions\<close>

lemma for_each_append:
  "for_each body (xs @ ys) s =
     (case for_each body xs s of Inl e \<Rightarrow> Inl e | Inr s' \<Rightarrow> for_each body ys s')"
  by (induction xs arbitrary: s) (auto split: sum.splits)

lemma py_index_less: "py_index n i = Some j \<Longrightarrow> j < n"
  by (auto simp: py_index_def split: if_splits)

lemma scatter_step_cases:
  assumes "scatter_step sk toks embs idxs (rs, ws) m = Inr (rs', ws')"
    and "length rs = n" and "length ws = n"
  shows "(skipped sk embs m \<and> rs' = rs \<and> ws' = ws) \<or>
         (\<not> skipped sk embs m \<and> m < length embs \<and> m < length toks \<and>
          (\<exists>j. py_index n (idxs ! m) = Some j \<and>
               rs' = append_at rs j (embs ! m) \<and>
               ws' = append_at ws j (len_chunk (toks ! m))))"
  using assms
  by (auto simp: scatter_step_def skipped_def getitem_nat_def
           split: if_splits sum.splits option.splits bool.splits)

lemma scatter_inv:
  assumes "for_each (scatter_step sk toks embs idxs) [0..<m] (replicate n [], replicate n []) = Inr (rs, ws)"
  shows "length rs = n \<and> length ws = n \<and>
         (\<forall>i<n. rs ! i = map (\<lambda>c. embs ! c) (kept_chunks n sk embs idxs m i) \<and>
                ws ! i = map (\<lambda>c. len_chunk (toks ! c)) (kept_chunks n sk embs idxs m i)) \<and>
         (\<forall>c<m. \<not> skipped sk embs c \<longrightarrow> c < length embs \<and> c < length toks \<and> py_index n (idxs ! c) \<noteq> None)"
  using assms
proof (induction m arbitrary: rs ws)
  case 0
  then show ?case by (auto simp: kept_chunks_def)
next
  case (Suc m)
  from Suc.prems obtain rs0 ws0 where
    pre: "for_each (scatter_step sk toks embs idxs) [0..<m] (replicate n [], replicate n []) = Inr (rs0, ws0)"
    and step: "scatter_step sk toks embs idxs (rs0, ws0) m = Inr (rs, ws)"
    by (auto simp: for_each_append split: sum.splits)
  note ih = Suc.IH [OF pre]
  from ih have len: "length rs0 = n" "length ws0 = n" by auto
  from scatter_step_cases [OF step len] show ?case
  proof (elim disjE conjE exE)
    assume "skipped sk embs m" "rs = rs0" "ws = ws0"
    with ih show ?thesis by (auto simp: kept_chunks_def less_Suc_eq)
  next
    fix j
    assume a: "\<not> skipped sk embs m" "m < length embs" "m < length toks"
      "py_index n (idxs ! m) = Some j"
      "rs = append_at rs0 j (embs ! m)" "ws = append_at ws0 j (len_chunk (toks ! m))"
    have jn: "j < n" using a(4) by (rule py_index_less)
    show ?thesis using ih a jn
      by (auto simp: kept_chunks_def append_at_def nth_list_update less_Suc_eq)
  qed
qed

lemma traverse_Inr:
  "traverse f xs = Inr ys \<Longrightarrow> length ys = length xs \<and> (\<forall>i<length xs. f (xs ! i) = Inr (ys ! i))"
proof (induction xs arbitrary: ys)
  case Nil
  then show ?case by simp
next
  case (Cons x xs)
  then obtain y ys' where f: "f x = Inr y" and t: "traverse f xs = Inr ys'" and ys: "ys = y # ys'"
    by (auto split: sum.splits)
  from Cons.IH [OF t] f ys show ?case by (auto simp: nth_Cons split: nat.splits)
qed

lemma traverse_py_div:
  "traverse (\<lambda>x. py_div (g x) b) xs =
     (if b = 0 \<and> xs \<noteq> [] then Inl ZeroDivisionError else Inr (map (\<lambda>x. g x / b) xs))"
  by (induction xs) (auto simp: py_div_def)

lemma average_eq:
  "average result weights =
     (if total_weight weights = 0 \<and> min_length result \<noteq> 0 then Inl ZeroDivisionError
      else Inr (map (\<lambda>column. weighted_sum column weights / real (total_weight weights)) (zip_star result)))"
  unfolding average_def traverse_py_div by (simp add: zip_star_def)

lemma normalized_eq:
  "normalized avg =
     (if magnitude avg = 0 \<and> avg \<noteq> [] then Inl ZeroDivisionError
      else Inr (map (\<lambda>val. val / magnitude avg) avg))"
  unfolding normalized_def traverse_py_div by simp

lemma process_result:
  assumes "process_batched_chunked_embeddings n toks embs idxs sk = Inr out"
  shows "length out = nat n \<and>
         (\<forall>i<nat n. combine (map (\<lambda>c. embs ! c) (kept_chunks (nat n) sk embs idxs (length idxs) i))
                           (map (\<lambda>c. len_chunk (toks ! c)) (kept_chunks (nat n) sk embs idxs (length idxs) i))
                     = Inr (out ! i))"
proof -
  from assms obtain rs ws where
    sc: "for_each (scatter_step sk toks embs idxs) [0..<length idxs]
           (replicate (nat n) [], replicate (nat n) []) = Inr (rs, ws)"
    and tr: "traverse (\<lambda>i. combine (rs ! i) (ws ! i)) [0..<nat n] = Inr out"
    by (auto simp: process_batched_chunked_embeddings_def split: sum.splits)
  note inv = scatter_inv [OF sc]
  from traverse_Inr [OF tr] have len: "length out = nat n"
    and each: "\<forall>i<nat n. combine (rs ! i) (ws ! i) = Inr (out ! i)" by auto
  show ?thesis using len each inv by auto
qed


lemmas eval_simps = process_batched_chunked_embeddings_def scatter_step_def getitem_nat_def
  py_index_def append_at_def combine_def average_def normalized_def py_div_def zip_star_def
  weighted_sum_def total_weight_def magnitude_def upt_rec kept_chunks_def skipped_def

section \<open>Substitution of the empty-string embedding\<close>

lemma empty_embedding_cases:
  "empty_embedding ep None hist = (r, cached', hist') \<Longrightarrow>
     hist' = hist @ [Text []] \<and>
     (\<forall>v. r = Inr v \<longrightarrow> cached' = Some v \<and> (\<exists>rest. ep hist (Text []) = Inr (v # rest)))"
  by (auto simp: empty_embedding_def create_def split: sum.splits list.splits)

lemma fill_empty_cached:
  "fill_empty ep es (Some c) hist = (Inr (map (\<lambda>e. case e of Some v \<Rightarrow> v | None \<Rightarrow> c) es), hist)"
proof (induction es)
  case Nil
  then show ?case by simp
next
  case (Cons e es)
  then show ?case by (cases e) (simp_all add: empty_embedding_def)
qed


lemma fill_empty_result:
  "fill_empty ep es None hist = (Inr res, hist') \<Longrightarrow>
     (None \<notin> set es \<and> res = map the es) \<or>
     (\<exists>e0 rest. None \<in> set es \<and> ep hist (Text []) = Inr (e0 # rest) \<and>
                res = map (\<lambda>e. case e of Some v \<Rightarrow> v | None \<Rightarrow> e0) es)"
proof (induction es arbitrary: res)
  case Nil
  then show ?case by simp
next
  case (Cons e es)
  show ?case
  proof (cases e)
    case (Some v)
    with Cons.prems obtain vs where vs: "fill_empty ep es None hist = (Inr vs, hist')" and res: "res = v # vs"
      by (auto split: sum.splits prod.splits)
    from Cons.IH [OF vs] Some res show ?thesis by auto
  next
    case None
    obtain r1 c1 h1 where e1: "empty_embedding ep None hist = (r1, c1, h1)"
      by (cases "empty_embedding ep None hist") auto
    from Cons.prems None e1 obtain v where r1: "r1 = Inr v" by (cases r1) auto
    from empty_embedding_cases [OF e1] r1 obtain rest where c1: "c1 = Some v"
      and ep: "ep hist (Text []) = Inr (v # rest)" by auto
    from Cons.prems None e1 r1 c1
    have "res = v # map (\<lambda>e. case e of Some v' \<Rightarrow> v' | None \<Rightarrow> v) es"
      by (auto simp: fill_empty_cached)
    with None ep show ?thesis by auto
  qed
qed

lemma fill_empty_nth:
  assumes "fill_empty ep es None hist = (Inr res, hist')"
  shows "length res = length es \<and>
         (\<exists>e0. \<forall>i<length es. res ! i = (case es ! i of Some v \<Rightarrow> v | None \<Rightarrow> e0))"
proof -
  from fill_empty_result [OF assms] show ?thesis
  proof (elim disjE conjE exE)
    assume a: "None \<notin> set es" "res = map the es"
    have "\<forall>i<length es. es ! i \<noteq> None" using a(1) by (metis nth_mem)
    with a(2) show ?thesis by (auto split: option.splits)
  next
    fix e0 rest
    assume "res = map (\<lambda>e. case e of Some v \<Rightarrow> v | None \<Rightarrow> e0) es"
    then show ?thesis by auto
  qed
qed

section \<open>When the aggregation returns\<close>

text \<open>
  The aggregation step returns when every chunk has an embedding, a token entry and an
  origin index in range, no text has a degenerate multi-chunk aggregate, and the endpoint
  answers the empty-string request with at least one embedding.
\<close>

lemma scatter_step_succeeds:
  assumes "length rs = n" and "length ws = n"
    and "m < length embs" and "m < length toks" and "py_index n (idxs ! m) \<noteq> None"
  shows "\<exists>rs' ws'. scatter_step sk toks embs idxs (rs, ws) m = Inr (rs', ws')"
  using assms by (auto simp: scatter_step_def getitem_nat_def split: option.splits bool.splits)

lemma scatter_succeeds:
  assumes "\<forall>c<m. c < length embs \<and> c < length toks \<and> py_index n (idxs ! c) \<noteq> None"
  shows "\<exists>rs ws. for_each (scatter_step sk toks embs idxs) [0..<m] (replicate n [], replicate n []) = Inr (rs, ws)"
  using assms
proof (induction m)
  case 0
  then show ?case by simp
next
  case (Suc m)
  then obtain rs ws where
    pre: "for_each (scatter_step sk toks embs idxs) [0..<m] (replicate n [], replicate n []) = Inr (rs, ws)"
    by auto
  from scatter_inv [OF pre] have len: "length rs = n" "length ws = n" by auto
  from Suc.prems have "m < length embs" "m < length toks" "py_index n (idxs ! m) \<noteq> None" by auto
  from scatter_step_succeeds [OF len this] obtain rs' ws' where
    "scatter_step sk toks embs idxs (rs, ws) m = Inr (rs', ws')" by blast
  with pre show ?case by (simp add: for_each_append)
qed

lemma traverse_succeeds:
  "\<forall>x\<in>set xs. \<exists>y. f x = Inr y \<Longrightarrow> \<exists>ys. traverse f xs = Inr ys"
  by (induction xs) auto

lemma combine_returns:
  assumes "total_weight weights \<noteq> 0"
    and "magnitude (map (\<lambda>column. weighted_sum column weights / real (total_weight weights)) (zip_star result)) \<noteq> 0"
  shows "\<exists>r. combine result weights = Inr r"
  using assms by (simp add: combine_def average_eq normalized_eq)

lemma fill_empty_returns:
  assumes "ep hist (Text []) = Inr (e0 # rest)"
  shows "\<exists>res hist'. fill_empty ep es None hist = (Inr res, hist')"
proof (induction es)
  case Nil
  then show ?case by simp
next
  case (Cons e es)
  show ?case
  proof (cases e)
    case None
    with assms show ?thesis by (simp add: empty_embedding_def create_def fill_empty_cached)
  next
    case (Some v)
    with Cons show ?thesis by auto
  qed
qed

lemma aggregation_returns:
  assumes "\<forall>c<length idxs. c < length embs \<and> c < length toks \<and> py_index (nat n) (idxs ! c) \<noteq> None"
    and "\<forall>i<nat n. \<exists>r.
           combine (map (\<lambda>c. embs ! c) (kept_chunks (nat n) sk embs idxs (length idxs) i))
                   (map (\<lambda>c. len_chunk (toks ! c)) (kept_chunks (nat n) sk embs idxs (length idxs) i)) = Inr r"
    and "ep hist (Text []) = Inr (e0 # rest)"
  shows "\<exists>opt res hist'.
           process_batched_chunked_embeddings n toks embs idxs sk = Inr opt \<and>
           fill_empty ep opt None hist = (Inr res, hist')"
proof -
  from scatter_succeeds [OF assms(1)] obtain rs ws where
    sc: "for_each (scatter_step sk toks embs idxs) [0..<length idxs]
           (replicate (nat n) [], replicate (nat n) []) = Inr (rs, ws)" by blast
  from scatter_inv [OF sc] assms(2)
  have "\<forall>i\<in>set [0..<nat n]. \<exists>r. combine (rs ! i) (ws ! i) = Inr r" by auto
  from traverse_succeeds [OF this] obtain opt where
    "traverse (\<lambda>i. combine (rs ! i) (ws ! i)) [0..<nat n] = Inr opt" by blast
  with sc have "process_batched_chunked_embeddings n toks embs idxs sk = Inr opt"
    by (simp add: process_batched_chunked_embeddings_def)
  with fill_empty_returns [of ep hist e0 rest opt, OF assms(3)] show ?thesis by blast
qed

section \<open>Properties of the aggregation\<close>

text \<open>
  C1: whenever the aggregation step (\<open>_process_batched_chunked_embeddings\<close>, then the
  substitution of the empty-string embedding) returns, it returns one embedding per
  submitted text (\<open>num_texts\<close> of them), and the embedding at position \<open>i\<close> is the one
  combined from exactly the kept chunks whose origin index is \<open>i\<close>, or the empty-string
  embedding when there is none.
\<close>

theorem aggregation_one_embedding_per_text:
  assumes "process_batched_chunked_embeddings n toks embs idxs sk = Inr opt"
    and "fill_empty ep opt None hist = (Inr res, hist')"
  shows "length res = nat n \<and>
         (\<exists>e0. \<forall>i<nat n.
            combine (map (\<lambda>c. embs ! c) (kept_chunks (nat n) sk embs idxs (length idxs) i))
                    (map (\<lambda>c. len_chunk (toks ! c)) (kept_chunks (nat n) sk embs idxs (length idxs) i))
              = Inr (opt ! i) \<and>
            res ! i = (case opt ! i of Some v \<Rightarrow> v | None \<Rightarrow> e0))"
proof -
  from process_result [OF assms(1)] have len: "length opt = nat n"
    and each: "\<forall>i<nat n.
            combine (map (\<lambda>c. embs ! c) (kept_chunks (nat n) sk embs idxs (length idxs) i))
                    (map (\<lambda>c. len_chunk (toks ! c)) (kept_chunks (nat n) sk embs idxs (length idxs) i))
              = Inr (opt ! i)" by auto
  from fill_empty_nth [OF assms(2)] len obtain e0 where
    "length res = nat n" "\<forall>i<nat n. res ! i = (case opt ! i of Some v \<Rightarrow> v | None \<Rightarrow> e0)" by auto
  with each show ?thesis by auto
qed

theorem aggregation_one_embedding_per_text_witness:
  "process_batched_chunked_embeddings 2 [Ids [5]] [[1, 2]] [1] False = Inr [None, Some [1, 2]] \<and>
   fill_empty (\<lambda>h r. Inr [[9, 9]]) [None, Some [1, 2]] None [] = (Inr [[9, 9], [1, 2]], [Text []]) \<and>
   length [[9, 9], [1, 2::real]] = nat 2"
proof -
  have p: "process_batched_chunked_embeddings 2 [Ids [5]] [[1, 2]] [1] False = Inr [None, Some [1, 2]]"
    by (simp add: eval_simps)
  have f: "fill_empty (\<lambda>h r. Inr [[9, 9]]) [None, Some [1, 2]] None [] = (Inr [[9, 9], [1, 2]], [Text []])"
    by (simp add: empty_embedding_def create_def)
  from aggregation_one_embedding_per_text [OF p f] p f show ?thesis by simp
qed

lemma zip_star_nth:
  "d < min_length xss \<Longrightarrow> zip_star xss ! d = map (\<lambda>xs. xs ! d) xss"
  by (simp add: zip_star_def)

lemma weighted_sum_map:
  "weighted_sum (map f cs) (map g cs) = (\<Sum>c\<leftarrow>cs. f c * real (g c))"
  by (simp add: weighted_sum_def zip_map_map zip_same_conv_map o_def)

lemma average_spec:
  assumes "average (map (\<lambda>c. embs ! c) cs) (map (\<lambda>c. len_chunk (toks ! c)) cs) = Inr avg"
  shows "avg = map (spec_weighted_average embs toks cs) [0..<min_length (map (\<lambda>c. embs ! c) cs)]"
proof -
  have col: "weighted_sum (map (\<lambda>c. embs ! c ! d) cs) (map (\<lambda>c. len_chunk (toks ! c)) cs)
               / real (total_weight (map (\<lambda>c. len_chunk (toks ! c)) cs))
             = spec_weighted_average embs toks cs d" for d
    using weighted_sum_map [of "\<lambda>c. embs ! c ! d" cs "\<lambda>c. len_chunk (toks ! c)"]
    by (simp add: spec_weighted_average_def total_weight_def o_def)
  from assms show ?thesis
    by (auto simp: average_eq zip_star_def o_def col split: if_splits)
qed

lemma combine_multi:
  assumes "2 \<le> length result" and "combine result weights = Inr r"
  shows "\<exists>avg. average result weights = Inr avg \<and> r = Some (map (\<lambda>val. val / magnitude avg) avg)"
  using assms by (auto simp: combine_def normalized_eq split: sum.splits if_splits)

text \<open>
  C2: a text aggregated from two or more kept chunks gets, in every dimension \<open>d\<close> (up to
  the length of its shortest chunk embedding), the sum of \<open>embedding[chunk][d] *
  tokenLength[chunk]\<close> divided by the sum of the token lengths, divided by the Euclidean
  norm of the vector of these averages. For two chunks of token lengths 3 and 1 with
  embeddings \<open>[1,0]\<close> and \<open>[0,1]\<close> the average before normalisation is \<open>[0.75, 0.25]\<close>
  and the result is that vector divided by its norm.
\<close>

theorem weighted_average_then_normalised:
  assumes "process_batched_chunked_embeddings n toks embs idxs sk = Inr opt"
    and "i < nat n"
    and "cs = kept_chunks (nat n) sk embs idxs (length idxs) i"
    and "2 \<le> length cs"
  shows "(\<exists>v. opt ! i = Some v \<and>
              length v = min_length (map (\<lambda>c. embs ! c) cs) \<and>
              (\<forall>d<length v.
                 v ! d = spec_weighted_average embs toks cs d /
                         sqrt (\<Sum>d'\<leftarrow>[0..<length v]. (spec_weighted_average embs toks cs d')\<^sup>2))) \<and>
         average [[1, 0], [0, 1]] [3, 1] = Inr [3 / 4, 1 / 4] \<and>
         process_batched_chunked_embeddings 1 [Ids [1, 2, 3], Ids [4]] [[1, 0], [0, 1]] [0, 0] False
           = Inr [Some [(3 / 4) / magnitude [3 / 4, 1 / 4], (1 / 4) / magnitude [3 / 4, 1 / 4]]]"
proof (intro conjI)
  let ?res = "map (\<lambda>c. embs ! c) cs" and ?ws = "map (\<lambda>c. len_chunk (toks ! c)) cs"
  from process_result [OF assms(1)] assms(2,3)
  have c: "combine ?res ?ws = Inr (opt ! i)" by simp
  from combine_multi [OF _ c] assms(4) obtain avg where
    avg: "average ?res ?ws = Inr avg" and opt: "opt ! i = Some (map (\<lambda>val. val / magnitude avg) avg)"
    by auto
  note a = average_spec [OF avg]
  have mag: "magnitude avg = sqrt (\<Sum>d'\<leftarrow>[0..<length avg]. (spec_weighted_average embs toks cs d')\<^sup>2)"
    unfolding magnitude_def by (subst (1) a) (simp add: a o_def)
  have len: "length avg = min_length ?res" by (simp add: a)
  have nth: "\<forall>d<length avg. avg ! d = spec_weighted_average embs toks cs d"
    by (simp add: a)
  show "\<exists>v. opt ! i = Some v \<and>
              length v = min_length (map (\<lambda>c. embs ! c) cs) \<and>
              (\<forall>d<length v.
                 v ! d = spec_weighted_average embs toks cs d /
                         sqrt (\<Sum>d'\<leftarrow>[0..<length v]. (spec_weighted_average embs toks cs d')\<^sup>2))"
    using opt len nth mag by auto
next
  show "average [[1, 0], [0, 1]] [3, 1] = Inr [3 / 4, 1 / 4]"
    by (simp add: eval_simps)
next
  show "process_batched_chunked_embeddings 1 [Ids [1, 2, 3], Ids [4]] [[1, 0], [0, 1]] [0, 0] False
           = Inr [Some [(3 / 4) / magnitude [3 / 4, 1 / 4], (1 / 4) / magnitude [3 / 4, 1 / 4]]]"
    by (simp add: eval_simps)
qed

theorem weighted_average_then_normalised_witness:
  "process_batched_chunked_embeddings 1 [Ids [1, 2, 3], Ids [4]] [[1, 0], [0, 1]] [0, 0] False
     = Inr [Some [(3 / 4) / sqrt (5 / 8), (1 / 4) / sqrt (5 / 8)]] \<and>
   kept_chunks (nat 1) False [[1, 0], [0, 1]] [0, 0] (length [0, 0 :: int]) 0 = [0, 1] \<and>
   spec_weighted_average [[1, 0], [0, 1]] [Ids [1, 2, 3], Ids [4]] [0, 1] 0 = 3 / 4 \<and>
   spec_weighted_average [[1, 0], [0, 1]] [Ids [1, 2, 3], Ids [4]] [0, 1] 1 = 1 / 4 \<and>
   (\<exists>v. [Some [(3 / 4) / sqrt (5 / 8), (1 / 4) / sqrt (5 / 8)]] ! 0 = Some v \<and>
        length v = min_length (map (\<lambda>c. [[1, 0], [0, 1 :: real]] ! c) [0, 1]) \<and>
        (\<forall>d<length v.
           v ! d = spec_weighted_average [[1, 0], [0, 1]] [Ids [1, 2, 3], Ids [4]] [0, 1] d /
                   sqrt (\<Sum>d'\<leftarrow>[0..<length v].
                           (spec_weighted_average [[1, 0], [0, 1]] [Ids [1, 2, 3], Ids [4]] [0, 1] d')\<^sup>2)))"
proof -
  have p: "process_batched_chunked_embeddings 1 [Ids [1, 2, 3], Ids [4]] [[1, 0], [0, 1]] [0, 0] False
     = Inr [Some [(3 / 4) / sqrt (5 / 8), (1 / 4) / sqrt (5 / 8)]]"
    by (simp add: eval_simps power2_eq_square)
  have k: "kept_chunks (nat 1) False [[1, 0], [0, 1]] [0, 0] (length [0, 0 :: int]) 0 = [0, 1]"
    by (simp add: eval_simps)
  have i: "0 < nat 1" by simp
  have l: "2 \<le> length [0, 1 :: nat]" by simp
  have s0: "spec_weighted_average [[1, 0], [0, 1]] [Ids [1, 2, 3], Ids [4]] [0, 1] 0 = 3 / 4"
    and s1: "spec_weighted_average [[1, 0], [0, 1]] [Ids [1, 2, 3], Ids [4]] [0, 1] 1 = 1 / 4"
    by (simp_all add: spec_weighted_average_def)
  note t = weighted_average_then_normalised [OF p i k [symmetric] l, THEN conjunct1]
  show ?thesis by (intro conjI p k s0 s1 t)
qed

text \<open>
  C3: a text with exactly one kept chunk gets that chunk's embedding as it is, with no
  averaging and no normalisation, also after the substitution of the empty-string
  embedding.
\<close>

theorem single_chunk_embedding_verbatim:
  assumes "process_batched_chunked_embeddings n toks embs idxs sk = Inr opt"
    and "i < nat n"
    and "kept_chunks (nat n) sk embs idxs (length idxs) i = [c]"
  shows "opt ! i = Some (embs ! c) \<and>
         (\<forall>ep hist res hist'. fill_empty ep opt None hist = (Inr res, hist') \<longrightarrow> res ! i = embs ! c)"
proof -
  from process_result [OF assms(1)] assms(2,3)
  have len: "length opt = nat n"
    and "combine [embs ! c] [len_chunk (toks ! c)] = Inr (opt ! i)" by auto
  then have o: "opt ! i = Some (embs ! c)" by (simp add: combine_def)
  have "res ! i = embs ! c" if "fill_empty ep opt None hist = (Inr res, hist')" for ep hist res hist'
    using fill_empty_nth [OF that] len assms(2) o by auto
  with o show ?thesis by blast
qed

theorem single_chunk_embedding_verbatim_witness:
  "process_batched_chunked_embeddings 2 [Ids [5, 6, 7]] [[3, 4]] [1] False = Inr [None, Some [3, 4]] \<and>
   kept_chunks (nat 2) False [[3, 4]] [1] (length [1 :: int]) 1 = [0] \<and>
   [None, Some [3, 4 :: real]] ! 1 = Some ([[3, 4]] ! 0) \<and>
   fill_empty (\<lambda>h r. Inr [[9, 9]]) [None, Some [3, 4]] None [] = (Inr [[9, 9], [3, 4]], [Text []])"
proof -
  have p: "process_batched_chunked_embeddings 2 [Ids [5, 6, 7]] [[3, 4]] [1] False = Inr [None, Some [3, 4]]"
    by (simp add: eval_simps)
  have k: "kept_chunks (nat 2) False [[3, 4]] [1] (length [1 :: int]) 1 = [0]"
    by (simp add: eval_simps)
  have i: "1 < nat 2" by simp
  have f: "fill_empty (\<lambda>h r. Inr [[9, 9]]) [None, Some [3, 4]] None [] = (Inr [[9, 9], [3, 4]], [Text []])"
    by (simp add: empty_embedding_def create_def)
  note t = single_chunk_embedding_verbatim [OF p i k, THEN conjunct1]
  show ?thesis by (intro conjI p k t f)
qed






text \<open>
  C5, amended: with \<open>skip_empty\<close> set, text \<open>i\<close> is aggregated from exactly the chunks of
  origin \<open>i\<close> whose returned embedding does not have exactly one component; the reported
  token length of a chunk plays no part in its exclusion.
\<close>

theorem skip_empty_excludes_one_component_embeddings:
  assumes "process_batched_chunked_embeddings n toks embs idxs True = Inr opt"
    and "i < nat n"
    and "cs = filter (\<lambda>c. length (embs ! c) \<noteq> 1 \<and> py_index (nat n) (idxs ! c) = Some i) [0..<length idxs]"
  shows "combine (map (\<lambda>c. embs ! c) cs) (map (\<lambda>c. len_chunk (toks ! c)) cs) = Inr (opt ! i)"
proof -
  have "cs = kept_chunks (nat n) True embs idxs (length idxs) i"
    by (simp add: assms(3) kept_chunks_def skipped_def)
  with process_result [OF assms(1)] assms(2) show ?thesis by simp
qed

theorem skip_empty_excludes_one_component_embeddings_witness:
  "process_batched_chunked_embeddings 1 [Ids [7], Str []] [[1 / 2], [1, 2]] [0, 0] True = Inr [Some [1, 2]] \<and>
   filter (\<lambda>c. length ([[1 / 2], [1, 2 :: real]] ! c) \<noteq> 1 \<and> py_index (nat 1) ([0, 0] ! c) = Some 0)
     [0..<length [0, 0 :: int]] = [1] \<and>
   combine (map (\<lambda>c. [[1 / 2], [1, 2]] ! c) [1]) (map (\<lambda>c. len_chunk ([Ids [7], Str []] ! c)) [1])
     = Inr ([Some [1, 2]] ! 0)"
proof -
  have p: "process_batched_chunked_embeddings 1 [Ids [7], Str []] [[1 / 2], [1, 2]] [0, 0] True = Inr [Some [1, 2]]"
    by (simp add: eval_simps)
  have i: "0 < nat 1" by simp
  have k: "filter (\<lambda>c. length ([[1 / 2], [1, 2 :: real]] ! c) \<noteq> 1 \<and> py_index (nat 1) ([0, 0] ! c) = Some 0)
     [0..<length [0, 0 :: int]] = [1]"
    by (simp add: eval_simps)
  note t = skip_empty_excludes_one_component_embeddings [OF p i k [symmetric]]
  show ?thesis by (intro conjI p k t)
qed

theorem skip_empty_token_length_counterexample:
  "len_chunk (Ids [7]) \<noteq> 0 \<and>
   process_batched_chunked_embeddings 1 [Ids [7]] [[1 / 2]] [0] True = Inr [None] \<and>
   process_batched_chunked_embeddings 1 [Ids [7]] [[1 / 2]] [0] False = Inr [Some [1 / 2]] \<and>
   len_chunk (Str []) = 0 \<and>
   process_batched_chunked_embeddings 1 [Str []] [[1, 2]] [0] True = Inr [Some [1, 2]]"
  by (simp add: eval_simps)

section \<open>Chunk planning\<close>













lemmas pipeline_simps = tokenize_def tokenize_step_def text_chunks_def split_tokens_def
  py_range_step_def encode_text_def demo_tokenizer_def demo_config_def demo_endpoint_def
  len_safe_embeddings_def get_len_safe_embeddings_def aget_len_safe_embeddings_def
  effective_chunk_size_def fetch_batch_def create_def empty_embedding_def
  embed_documents_def aembed_documents_def embed_query_def aembed_query_def getitem_def
  embed_unchecked_step_def



section \<open>The length-safe pipeline\<close>

lemma fetch_batch_apply:
  "fetch_batch ep cs tokens batched i hist =
     (case ep hist (Batch (take (nat cs) (drop i tokens))) of
        Inl e \<Rightarrow> (Inl e, hist @ [Batch (take (nat cs) (drop i tokens))])
      | Inr data \<Rightarrow> (Inr (batched @ data), hist @ [Batch (take (nat cs) (drop i tokens))]))"
  by (simp add: fetch_batch_def create_def split: sum.splits)

lemma fetch_batches_hist:
  "for_each_remote (fetch_batch ep cs tokens) iter s hist = (r, hist') \<Longrightarrow>
     \<exists>calls. hist' = hist @ calls \<and> Text [] \<notin> set calls"
proof (induction iter arbitrary: s hist)
  case Nil
  then show ?case by simp
next
  case (Cons i iter)
  let ?req = "Batch (take (nat cs) (drop i tokens))"
  show ?case
  proof (cases "ep hist ?req")
    case (Inl e)
    then have "fetch_batch ep cs tokens s i hist = (Inl e, hist @ [?req])"
      by (simp add: fetch_batch_apply)
    with Cons.prems have "hist' = hist @ [?req]"
      by (simp only: for_each_remote.simps prod.case sum.case prod.inject)
    then show ?thesis by auto
  next
    case (Inr data)
    then have "fetch_batch ep cs tokens s i hist = (Inr (s @ data), hist @ [?req])"
      by (simp add: fetch_batch_apply)
    with Cons.prems have "for_each_remote (fetch_batch ep cs tokens) iter (s @ data) (hist @ [?req]) = (r, hist')"
      by (simp only: for_each_remote.simps prod.case sum.case)
    from Cons.IH [OF this] obtain calls where "hist' = (hist @ [?req]) @ calls" "Text [] \<notin> set calls"
      by blast
    then show ?thesis by (intro exI [of _ "?req # calls"]) simp
  qed
qed

lemma len_safe_cases:
  assumes "len_safe_embeddings ep cfg tk texts chunk_size hist = (r, hist')"
  shows "(\<exists>e. r = Inl e \<and> (\<exists>calls. hist' = hist @ calls \<and> Text [] \<notin> set calls)) \<or>
         (\<exists>iter tokens indices embs opt calls.
            tokenize cfg tk texts (effective_chunk_size cfg chunk_size) = Inr (iter, tokens, indices) \<and>
            Text [] \<notin> set calls \<and>
            process_batched_chunked_embeddings (int (length texts)) tokens embs indices (cfg_skip_empty cfg) = Inr opt \<and>
            fill_empty ep opt None (hist @ calls) = (r, hist'))"
proof (cases "tokenize cfg tk texts (effective_chunk_size cfg chunk_size)")
  case (Inl e)
  with assms have "r = Inl e" "hist' = hist @ []" by (simp_all add: len_safe_embeddings_def)
  then show ?thesis by (intro disjI1) (metis empty_iff list.set(1))
next
  case (Inr t)
  obtain iter tokens indices where t: "t = (iter, tokens, indices)" by (cases t)
  obtain rb hb where fb: "for_each_remote (fetch_batch ep (effective_chunk_size cfg chunk_size) tokens)
                 iter [] hist = (rb, hb)"
    by (cases "for_each_remote (fetch_batch ep (effective_chunk_size cfg chunk_size) tokens) iter [] hist")
  from fetch_batches_hist [OF fb] obtain calls where calls: "hb = hist @ calls" "Text [] \<notin> set calls"
    by blast
  show ?thesis
  proof (cases rb)
    case (Inl e)
    with assms Inr t fb have "r = Inl e" "hist' = hb" by (simp_all add: len_safe_embeddings_def)
    with calls show ?thesis by blast
  next
    case rbr: (Inr embs)
    show ?thesis
    proof (cases "process_batched_chunked_embeddings (int (length texts)) tokens embs indices (cfg_skip_empty cfg)")
      case (Inl e)
      with assms Inr t fb rbr have "r = Inl e" "hist' = hb" by (simp_all add: len_safe_embeddings_def)
      with calls show ?thesis by blast
    next
      case pr: (Inr opt)
      with assms Inr t fb rbr have "fill_empty ep opt None hb = (r, hist')"
        by (simp add: len_safe_embeddings_def)
      with Inr t calls pr show ?thesis by blast
    qed
  qed
qed

lemma len_safe_length:
  assumes "len_safe_embeddings ep cfg tk texts chunk_size hist = (Inr res, hist')"
  shows "length res = length texts"
proof -
  from len_safe_cases [OF assms] obtain tokens indices embs opt calls where
    p: "process_batched_chunked_embeddings (int (length texts)) tokens embs indices (cfg_skip_empty cfg) = Inr opt"
    and f: "fill_empty ep opt None (hist @ calls) = (Inr res, hist')" by auto
  from process_result [OF p] fill_empty_nth [OF f] show ?thesis by simp
qed







section \<open>Query embedding\<close>

lemma getitem_first: "getitem es 0 = (case es of [] \<Rightarrow> Inl IndexError | e # _ \<Rightarrow> Inr e)"
  by (cases es) (simp_all add: getitem_def py_index_def)

lemma embed_unchecked_one:
  "for_each_remote (embed_unchecked_step ep) [t] [] hist =
     (case ep hist (Text t) of
        Inl e \<Rightarrow> (Inl e, hist @ [Text t])
      | Inr data \<Rightarrow> (Inr data, hist @ [Text t]))"
  by (simp add: embed_unchecked_step_def create_def split: sum.splits)

lemma one_text_one_embedding:
  assumes "(if cfg_check_embedding_ctx_length cfg
            then len_safe_embeddings ep cfg tk [t] None hist
            else for_each_remote (embed_unchecked_step ep) [t] [] hist) = (Inr es, h)"
    and "cfg_check_embedding_ctx_length cfg \<or> (\<exists>e. ep hist (Text t) = Inr [e])"
  shows "\<exists>e. es = [e]"
proof (cases "cfg_check_embedding_ctx_length cfg")
  case True
  with assms(1) have "len_safe_embeddings ep cfg tk [t] None hist = (Inr es, h)" by simp
  from len_safe_length [OF this] have "length es = 1" by simp
  then show ?thesis by (cases es) auto
next
  case False
  with assms(2) obtain e where "ep hist (Text t) = Inr [e]" by blast
  with assms(1) False show ?thesis by (auto simp: embed_unchecked_step_def create_def)
qed

text \<open>
  C10: \<open>embed_query(text)\<close> is element 0 of \<open>embed_documents([text])\<close>, and
  \<open>aembed_query(text)\<close> is element 0 of \<open>aembed_documents([text])\<close>. That list has exactly
  one element on the length-safe path, and on the unchecked path when the endpoint answers
  the one-text request with one embedding.
\<close>

theorem embed_query_first_of_embed_documents:
  "embed_query cfg tk t hist =
     (case embed_documents cfg tk [t] hist of
        (Inl err, h) \<Rightarrow> (Inl err, h)
      | (Inr [], h) \<Rightarrow> (Inl IndexError, h)
      | (Inr (e # es), h) \<Rightarrow> (Inr e, h)) \<and>
   aembed_query cfg tk t hist =
     (case aembed_documents cfg tk [t] hist of
        (Inl err, h) \<Rightarrow> (Inl err, h)
      | (Inr [], h) \<Rightarrow> (Inl IndexError, h)
      | (Inr (e # es), h) \<Rightarrow> (Inr e, h)) \<and>
   (\<forall>es h. embed_documents cfg tk [t] hist = (Inr es, h) \<and>
            (cfg_check_embedding_ctx_length cfg \<or> (\<exists>e. cfg_client cfg hist (Text t) = Inr [e])) \<longrightarrow>
            (\<exists>e. es = [e] \<and> embed_query cfg tk t hist = (Inr e, h))) \<and>
   (\<forall>es h. aembed_documents cfg tk [t] hist = (Inr es, h) \<and>
            (cfg_check_embedding_ctx_length cfg \<or> (\<exists>e. cfg_async_client cfg hist (Text t) = Inr [e])) \<longrightarrow>
            (\<exists>e. es = [e] \<and> aembed_query cfg tk t hist = (Inr e, h)))"
proof (intro conjI allI impI)
  show q: "embed_query cfg tk t hist =
     (case embed_documents cfg tk [t] hist of
        (Inl err, h) \<Rightarrow> (Inl err, h)
      | (Inr [], h) \<Rightarrow> (Inl IndexError, h)
      | (Inr (e # es), h) \<Rightarrow> (Inr e, h))"
    by (simp add: embed_query_def getitem_first split: prod.splits sum.splits list.splits)
  show aq: "aembed_query cfg tk t hist =
     (case aembed_documents cfg tk [t] hist of
        (Inl err, h) \<Rightarrow> (Inl err, h)
      | (Inr [], h) \<Rightarrow> (Inl IndexError, h)
      | (Inr (e # es), h) \<Rightarrow> (Inr e, h))"
    by (simp add: aembed_query_def getitem_first split: prod.splits sum.splits list.splits)
  {
    fix es h
    assume a: "embed_documents cfg tk [t] hist = (Inr es, h) \<and>
            (cfg_check_embedding_ctx_length cfg \<or> (\<exists>e. cfg_client cfg hist (Text t) = Inr [e]))"
    then have "(if cfg_check_embedding_ctx_length cfg
            then len_safe_embeddings (cfg_client cfg) cfg tk [t] None hist
            else for_each_remote (embed_unchecked_step (cfg_client cfg)) [t] [] hist) = (Inr es, h)"
      by (simp add: embed_documents_def get_len_safe_embeddings_def split: if_splits)
    from one_text_one_embedding [OF this] a obtain e where "es = [e]" by blast
    with a q show "\<exists>e. es = [e] \<and> embed_query cfg tk t hist = (Inr e, h)" by simp
  }
  {
    fix es h
    assume a: "aembed_documents cfg tk [t] hist = (Inr es, h) \<and>
            (cfg_check_embedding_ctx_length cfg \<or> (\<exists>e. cfg_async_client cfg hist (Text t) = Inr [e]))"
    then have "(if cfg_check_embedding_ctx_length cfg
            then len_safe_embeddings (cfg_async_client cfg) cfg tk [t] None hist
            else for_each_remote (embed_unchecked_step (cfg_async_client cfg)) [t] [] hist) = (Inr es, h)"
      by (simp add: aembed_documents_def aget_len_safe_embeddings_def split: if_splits)
    from one_text_one_embedding [OF this] a obtain e where "es = [e]" by blast
    with a aq show "\<exists>e. es = [e] \<and> aembed_query cfg tk t hist = (Inr e, h)" by simp
  }
qed

theorem embed_query_first_of_embed_documents_witness:
  "embed_documents demo_config demo_tokenizer [''ab''] [] =
     (Inr [[2, 1]], [Batch [Ids [1, 2]]]) \<and>
   cfg_check_embedding_ctx_length demo_config \<and>
   embed_query demo_config demo_tokenizer ''ab'' [] =
     (Inr [2, 1], [Batch [Ids [1, 2]]]) \<and>
   embed_documents (demo_config\<lparr>cfg_check_embedding_ctx_length := False\<rparr>) demo_tokenizer [''ab''] [] =
     (Inr [[9, 9]], [Text ''ab'']) \<and>
   embed_query (demo_config\<lparr>cfg_check_embedding_ctx_length := False\<rparr>) demo_tokenizer ''ab'' [] =
     (Inr [9, 9], [Text ''ab''])"
proof -
  have d: "embed_documents demo_config demo_tokenizer [''ab''] [] =
     (Inr [[2, 1]], [Batch [Ids [1, 2]]])"
    by (simp add: pipeline_simps eval_simps enumerate_eq_zip)
  have c: "cfg_check_embedding_ctx_length demo_config" by (simp add: demo_config_def)
  have d': "embed_documents (demo_config\<lparr>cfg_check_embedding_ctx_length := False\<rparr>) demo_tokenizer [''ab''] [] =
     (Inr [[9, 9]], [Text ''ab''])"
    by (simp add: pipeline_simps)
  have c': "\<exists>e. cfg_client (demo_config\<lparr>cfg_check_embedding_ctx_length := False\<rparr>) [] (Text ''ab'') = Inr [e]"
    by (simp add: demo_config_def demo_endpoint_def)
  note t = embed_query_first_of_embed_documents [of demo_config demo_tokenizer "''ab''" "[]"]
  note t' = embed_query_first_of_embed_documents
    [of "demo_config\<lparr>cfg_check_embedding_ctx_length := False\<rparr>" demo_tokenizer "''ab''" "[]"]
  from t d c have q: "embed_query demo_config demo_tokenizer ''ab'' [] =
     (Inr [2, 1], [Batch [Ids [1, 2]]])" by auto
  from t' d' c' have q': "embed_query (demo_config\<lparr>cfg_check_embedding_ctx_length := False\<rparr>) demo_tokenizer ''ab'' [] =
     (Inr [9, 9], [Text ''ab''])" by auto
  from d c q d' q' show ?thesis by blast
qed

section \<open>Completion calls\<close>

lemmas llm_simps = generate_def agenerate_def generate_step_def agenerate_step_def
  get_sub_prompts_def invocation_params_def py_range_step_def truthy_def
  update_token_usage_def add_counter_def create_llm_result_def py_slice_def no_usage_def
  demo_llm_def demo_completions_def demo_error_response_def demo_choice_def no_kwargs_def
  streamed_choice_def stream_with_def stream_response_to_generation_chunk_def
  generation_choice_def demo_chunk_add_def getitem_def py_index_def validate_environment_def

lemma generate_step_error_field:
  assumes "\<not> llm_streaming self"
    and "create_completion (llm_client self) hist (Complete sub ps) = Inr resp"
    and "resp_error resp = Some err" and "err \<noteq> []"
  shows "generate_step self ps stop kw st sub hist = (Inl (ValueError err), hist @ [Complete sub ps])"
  using assms by (cases st) (simp add: generate_step_def truthy_def)

lemma generate_step_returns:
  assumes "\<not> llm_streaming self"
    and "generate_step self ps stop kw st sub hist = (Inr st', hist')"
  shows "hist' = hist @ [Complete sub ps] \<and>
         (\<exists>resp. create_completion (llm_client self) hist (Complete sub ps) = Inr resp \<and>
                 \<not> truthy (resp_error resp))"
  using assms
  by (cases st) (auto simp: generate_step_def split: sum.splits if_splits option.splits)

lemma generate_loop_no_error_field:
  assumes "\<not> llm_streaming self"
  shows "for_each_cremote (generate_step self ps stop kw) subs st hist = (Inr st', hist') \<Longrightarrow>
         \<exists>calls. hist' = hist @ calls \<and>
           (\<forall>k<length calls. \<exists>resp.
              create_completion (llm_client self) (hist @ take k calls) (calls ! k) = Inr resp \<and>
              \<not> truthy (resp_error resp))"
proof (induction subs arbitrary: st hist)
  case Nil
  then show ?case by simp
next
  case (Cons sub subs)
  obtain r1 h1 where s1: "generate_step self ps stop kw st sub hist = (r1, h1)"
    by (cases "generate_step self ps stop kw st sub hist")
  with Cons.prems obtain st1 where r1: "r1 = Inr st1"
    and rest: "for_each_cremote (generate_step self ps stop kw) subs st1 h1 = (Inr st', hist')"
    by (cases r1) (simp_all only: for_each_cremote.simps prod.case sum.case prod.inject sum.distinct, simp)
  from generate_step_returns [OF assms s1 [unfolded r1]] obtain resp where
    h1: "h1 = hist @ [Complete sub ps]"
    and ok: "create_completion (llm_client self) hist (Complete sub ps) = Inr resp" "\<not> truthy (resp_error resp)"
    by blast
  from Cons.IH [OF rest] obtain calls where
    c: "hist' = h1 @ calls"
      "\<forall>k<length calls. \<exists>resp.
          create_completion (llm_client self) (h1 @ take k calls) (calls ! k) = Inr resp \<and>
          \<not> truthy (resp_error resp)"
    by blast
  show ?case
  proof (intro exI [of _ "Complete sub ps # calls"] conjI allI impI)
    show "hist' = hist @ Complete sub ps # calls" using c(1) h1 by simp
  next
    fix k assume "k < length (Complete sub ps # calls)"
    then show "\<exists>resp. create_completion (llm_client self) (hist @ take k (Complete sub ps # calls))
                  ((Complete sub ps # calls) ! k) = Inr resp \<and> \<not> truthy (resp_error resp)"
      using ok c(2) h1 by (cases k) auto
  qed
qed

lemma generate_returns_no_error_field:
  assumes "\<not> llm_streaming self" and "generate self prompts stop kw hist = (Inr res, hist')"
  shows "\<exists>calls. hist' = hist @ calls \<and>
           (\<forall>k<length calls. \<exists>resp.
              create_completion (llm_client self) (hist @ take k calls) (calls ! k) = Inr resp \<and>
              \<not> truthy (resp_error resp))"
proof -
  from assms(2) obtain ps subs st' where
    "for_each_cremote (generate_step self ps stop kw) subs ([], no_usage, None) hist = (Inr st', hist')"
    by (auto simp: generate_def split: sum.splits prod.splits)
  from generate_loop_no_error_field [OF assms(1) this] show ?thesis .
qed

text \<open>
  C8: a response with an error field aborts \<open>_generate\<close> with that error, as the lemmas
  above show for every call. \<open>_agenerate\<close> does not look at the field: on the same
  one-prompt call, with the same response carrying both an error and a list of choices, the
  synchronous call raises the error and the asynchronous call returns a result built from
  the choices; when the choices are null next to the error, the asynchronous call raises
  TypeError in place of the error.
\<close>

theorem agenerate_ignores_error_field:
  "create_completion (llm_async_client demo_llm) []
      (Complete [''hi''] \<lparr> p_n = 1, p_max_tokens = 256, p_stop = None, p_stream = False \<rparr>)
     = Inr demo_error_response \<and>
   resp_error demo_error_response = Some ''model overloaded'' \<and>
   generate demo_llm [''hi''] None no_kwargs [] =
     (Inl (ValueError ''model overloaded''),
      [Complete [''hi''] \<lparr> p_n = 1, p_max_tokens = 256, p_stop = None, p_stream = False \<rparr>]) \<and>
   agenerate demo_llm [''hi''] None no_kwargs [] =
     (Inr \<lparr> generations = [[demo_choice ''partial'']], out_token_usage = no_usage,
            out_model_name = ''model'', out_system_fingerprint = None \<rparr>,
      [Complete [''hi''] \<lparr> p_n = 1, p_max_tokens = 256, p_stop = None, p_stream = False \<rparr>]) \<and>
   agenerate
     (demo_llm\<lparr>llm_async_client :=
        demo_completions\<lparr>create_completion :=
          (\<lambda>hist req. Inr (demo_error_response\<lparr>resp_choices := None\<rparr>))\<rparr>\<rparr>)
     [''hi''] None no_kwargs [] =
     (Inl TypeError,
      [Complete [''hi''] \<lparr> p_n = 1, p_max_tokens = 256, p_stop = None, p_stream = False \<rparr>])"
  by (simp add: llm_simps)






end
